theory Spec2Isabelle
  imports Complex_Main
begin

section \<open>A UDP fan accessory: data model\<close>

text \<open>
  The development follows the retrying version of the accessory (class
  \<open>UDPFanAccessory\<close> with \<open>sendCommand(message, expectResponse, retryCount)\<close>).

  Conventions of the embedding.
  \<^item> Time is a virtual clock in milliseconds (\<open>nat\<close>): \<open>Date.now()\<close> is the clock value at
    the point of the call, \<open>setTimeout(f, d)\<close> runs \<open>f\<close> exactly \<open>d\<close> ms later.
  \<^item> The socket is an environment \<open>network\<close>: it says for which instants a \<open>socket.send\<close>
    reports an error to its callback, and which datagram text (the result of
    \<open>msg.toString()\<close>, code units below 256) the socket emits as a \<open>'message'\<close> event at
    which instant.
  \<^item> A number read from a reply is the double that \<open>parseInt\<close> returns: an integer
    rounded to 53 significant bits, or an infinity. Retry counts and the speed computed
    by \<open>Math.round\<close> are mathematical integers; percentages are rationals, with
    \<open>33.33\<close> read as \<open>3333/100\<close> (exact arithmetic in place of IEEE doubles).
  \<^item> A promise is represented by the instant at which it settles and by the value or
    error it settles with; log output is not modelled.
\<close>

text \<open>The errors a promise is rejected with: the \<open>err\<close> that \<open>socket.send\<close> hands to its
  callback, \<open>Error('Timeout waiting for response after retries')\<close> and
  \<open>Error('Invalid response from device')\<close>.\<close>

datatype error = SendFailure | Timeout | InvalidResponse

text \<open>The values a resolved \<open>sendCommand\<close> promise can carry: \<open>resolve()\<close> gives
  \<open>undefined\<close>, \<open>resolve(value)\<close> a number that is not \<open>NaN\<close>: an integer (with
  \<open>-0\<close> identified with \<open>0\<close>) or one of the two infinities.\<close>

datatype jsvalue = Undefined | Number int | PosInfinity | NegInfinity

text \<open>The result of the arithmetic \<open>speed * 33.33\<close>.\<close>

datatype jsnum = NaN | Fin rat | PosInf | NegInf

record network =
  send_fails :: "nat \<Rightarrow> bool"
  arrivals :: "nat \<Rightarrow> string option"

record config =
  cfg_name :: string
  cfg_ip :: string
  cfg_port :: int
  cfg_maxRetries :: "int option"
  cfg_retryDelay :: "nat option"
  cfg_timeout :: "nat option"
  cfg_cacheTimeout :: "nat option"

record accessory =
  name :: string
  ip :: string
  port :: int
  maxRetries :: int
  retryDelay :: nat
  timeout :: nat
  cachedSpeed :: "jsvalue option"
  cachedActive :: "int option"
  cacheTimeout :: nat
  lastUpdate :: nat

text \<open>A settled \<open>sendCommand\<close> promise, together with every datagram the call (and the
  retries it scheduled, also those still running after the promise settled) put on the
  wire; each entry carries the instant of its \<open>socket.send\<close>.\<close>

record dispatch =
  settled_at :: nat
  outcome :: "error + jsvalue"
  sends :: "(nat \<times> string) list"

section \<open>The constructor\<close>

text \<open>\<open>config.x || d\<close>: an absent option and a falsy number (\<open>0\<close>) both give the default.\<close>

definition or_default :: "('a::zero) option \<Rightarrow> 'a \<Rightarrow> 'a" where
  "or_default v d = (case v of None \<Rightarrow> d | Some x \<Rightarrow> if x = 0 then d else x)"

definition constructor :: "config \<Rightarrow> accessory" where
  "constructor cfg =
     \<lparr> name = cfg_name cfg, ip = cfg_ip cfg, port = cfg_port cfg,
       maxRetries = or_default (cfg_maxRetries cfg) 3,
       retryDelay = or_default (cfg_retryDelay cfg) 200,
       timeout = or_default (cfg_timeout cfg) 1000,
       cachedSpeed = None,
       cachedActive = None,
       cacheTimeout = or_default (cfg_cacheTimeout cfg) 2000,
       lastUpdate = 0 \<rparr>"

section \<open>Parsing a reply\<close>

text \<open>\<open>parseInt(string)\<close> without a radix: leading white space is dropped, one sign is
  read, a prefix \<open>0x\<close>/\<open>0X\<close> selects radix 16, the longest prefix of digits of the radix
  is the number, and there is no number (\<open>NaN\<close>, here \<open>None\<close>) when that prefix is empty.
  The result is a Number, that is a double: the integer read is rounded to 53 significant
  bits, ties to even, and is an infinity from \<open>2 ^ 1024\<close> on.\<close>

function bitLength :: "int \<Rightarrow> nat" where
  "bitLength n = (if n \<le> 0 then 0 else Suc (bitLength (n div 2)))"
  by pat_completeness auto
termination
  by (relation "measure nat") auto

declare bitLength.simps [simp del]

text \<open>The double nearest to a non-negative integer; \<open>None\<close> when the rounded value is
  too large for a finite double.\<close>

definition toNumber :: "int \<Rightarrow> int option" where
  "toNumber m =
     (if m \<le> 2 ^ 53 then Some m
      else
        (let e = bitLength m - 53;
             q = m div 2 ^ e;
             r = m mod 2 ^ e;
             rounded = (if 2 * r > 2 ^ e \<or> (2 * r = 2 ^ e \<and> odd q) then q + 1 else q) * 2 ^ e
         in if rounded < 2 ^ 1024 then Some rounded else None))"

definition isWhiteSpace :: "char \<Rightarrow> bool" where
  "isWhiteSpace c = ((of_char c :: nat) \<in> {9, 10, 11, 12, 13, 32, 160})"

definition digitValue :: "char \<Rightarrow> int option" where
  "digitValue c =
     (let n = (of_char c :: int) in
      if 48 \<le> n \<and> n \<le> 57 then Some (n - 48)
      else if 97 \<le> n \<and> n \<le> 102 then Some (n - 87)
      else if 65 \<le> n \<and> n \<le> 70 then Some (n - 55)
      else None)"

definition radixDigit :: "int \<Rightarrow> char \<Rightarrow> bool" where
  "radixDigit R c = (case digitValue c of None \<Rightarrow> False | Some v \<Rightarrow> v < R)"

definition mathInt :: "int \<Rightarrow> string \<Rightarrow> int" where
  "mathInt R Z = foldl (\<lambda>acc c. acc * R + (case digitValue c of None \<Rightarrow> 0 | Some v \<Rightarrow> v)) 0 Z"

definition parseInt :: "string \<Rightarrow> jsvalue option" where
  "parseInt inputString =
     (let S = dropWhile isWhiteSpace inputString;
          sign = (if S \<noteq> [] \<and> hd S = CHR ''-'' then - 1 else 1 :: int);
          S1 = (if S \<noteq> [] \<and> (hd S = CHR ''+'' \<or> hd S = CHR ''-'') then tl S else S);
          hex = (take 2 S1 = ''0x'' \<or> take 2 S1 = ''0X'');
          R = (if hex then 16 else 10);
          S2 = (if hex then drop 2 S1 else S1);
          Z = takeWhile (radixDigit R) S2
      in if Z = [] then None
         else (case toNumber (mathInt R Z) of
                 None \<Rightarrow> Some (if sign < 0 then NegInfinity else PosInfinity)
               | Some n \<Rightarrow> Some (Number (sign * n))))"

text \<open>The body of \<open>handleMessage\<close> after the timer is cleared and the listener removed:
  \<open>msg.toString().split(',')[0]\<close> is the text before the first comma.\<close>

definition handleMessage :: "string \<Rightarrow> error + jsvalue" where
  "handleMessage msg =
     (let response = takeWhile (\<lambda>c. c \<noteq> CHR '','') msg in
      case parseInt response of
        None \<Rightarrow> Inl InvalidResponse
      | Some value \<Rightarrow> Inr value)"

section \<open>The command dispatcher\<close>

text \<open>The first \<open>'message'\<close> event while the listener is registered: the listener is added
  in the tick of the send and removed when the timer fires, \<open>d\<close> ms later.\<close>

definition first_arrival :: "network \<Rightarrow> nat \<Rightarrow> nat \<Rightarrow> (nat \<times> string) option" where
  "first_arrival net now d =
     (case List.find (\<lambda>t. arrivals net t \<noteq> None) [now ..< now + d] of
        None \<Rightarrow> None
      | Some t \<Rightarrow> map_option (Pair t) (arrivals net t))"

text \<open>A promise keeps its first settlement. Of the error callback of \<open>socket.send\<close> and
  the listener/timer pair, the one that settles earlier decides; at the same instant the
  send callback is taken to run first.\<close>

definition first_settled :: "dispatch option \<Rightarrow> dispatch \<Rightarrow> dispatch" where
  "first_settled e w =
     (case e of
        None \<Rightarrow> w
      | Some r \<Rightarrow>
          (if settled_at r \<le> settled_at w
           then \<lparr> settled_at = settled_at r, outcome = outcome r, sends = sends r @ sends w \<rparr>
           else \<lparr> settled_at = settled_at w, outcome = outcome w, sends = sends r @ sends w \<rparr>))"

text \<open>
  \<open>sendCommand(message, expectResponse, retryCount)\<close> called at \<open>now\<close>. The executor of
  its promise does two things in the same tick.
  \<^item> It sends the datagram. When the send fails, the callback either schedules a retry
    \<open>retryDelay\<close> ms later, whose settlement is passed on to this promise, or, with no
    retry left, rejects with the send error (\<open>sendError\<close>).
  \<^item> With \<open>expectResponse\<close> it registers a listener and a timer of \<open>timeout\<close> ms: the
    first datagram settles the promise through \<open>handleMessage\<close>; otherwise the timer
    either schedules a retry \<open>retryDelay\<close> ms after it fired or rejects with the timeout
    error. Without \<open>expectResponse\<close> it resolves at once, with \<open>undefined\<close>, before the
    send callback can run (\<open>awaited\<close>).

  A failed send does not cancel the listener and the timer, so both paths may schedule
  retries; every send they cause is recorded.
\<close>

function sendCommand ::
  "accessory \<Rightarrow> network \<Rightarrow> string \<Rightarrow> bool \<Rightarrow> int \<Rightarrow> nat \<Rightarrow> dispatch" where
  "sendCommand a net message expectResponse retryCount now =
     (let sendError =
            (if send_fails net now then
               (if retryCount < maxRetries a
                then Some (sendCommand a net message expectResponse (retryCount + 1)
                             (now + retryDelay a))
                else Some \<lparr> settled_at = now, outcome = Inl SendFailure, sends = [] \<rparr>)
             else None);
          awaited =
            (if expectResponse then
               (case first_arrival net now (timeout a) of
                  Some (t, msg) \<Rightarrow>
                    \<lparr> settled_at = t, outcome = handleMessage msg, sends = [] \<rparr>
                | None \<Rightarrow>
                    (if retryCount < maxRetries a
                     then sendCommand a net message expectResponse (retryCount + 1)
                            (now + timeout a + retryDelay a)
                     else \<lparr> settled_at = now + timeout a, outcome = Inl Timeout, sends = [] \<rparr>))
             else \<lparr> settled_at = now, outcome = Inr Undefined, sends = [] \<rparr>);
          settled =
            (if expectResponse then first_settled sendError awaited
             else awaited \<lparr> sends := (case sendError of None \<Rightarrow> [] | Some r \<Rightarrow> sends r) \<rparr>)
      in settled \<lparr> sends := (now, message) # sends settled \<rparr>)"
  by pat_completeness auto
termination
  by (relation "measure (\<lambda>(a, net, message, expectResponse, retryCount, now).
        nat (maxRetries a - retryCount))") auto

declare sendCommand.simps [simp del]

section \<open>Confirmed writes\<close>

text \<open>One top-level \<open>sendCommand\<close> call made by an operation: its message, its
  \<open>expectResponse\<close> flag, the instant of the call and what came of it.\<close>

record call =
  call_message :: string
  call_expect :: bool
  call_at :: nat
  call_result :: dispatch

definition mk_call :: "accessory \<Rightarrow> network \<Rightarrow> string \<Rightarrow> bool \<Rightarrow> nat \<Rightarrow> call" where
  "mk_call a net message expectResponse now =
     \<lparr> call_message = message, call_expect = expectResponse, call_at = now,
       call_result = sendCommand a net message expectResponse 0 now \<rparr>"

text \<open>What an \<open>async\<close> method leaves behind: the instant at which it returns or throws,
  its value (\<open>Inl\<close> for a thrown error) and the \<open>sendCommand\<close> calls it made, in order.\<close>

record 'r finished =
  finished_at :: nat
  returned :: "error + 'r"
  calls :: "call list"

text \<open>\<open>sendCommandWithConfirmation(message, expectedValue)\<close>; the result \<open>None\<close> is
  \<open>null\<close>. The \<open>catch\<close> block logs and rethrows.\<close>

definition sendCommandWithConfirmation ::
  "accessory \<Rightarrow> network \<Rightarrow> string \<Rightarrow> int option \<Rightarrow> nat \<Rightarrow> jsvalue option finished" where
  "sendCommandWithConfirmation a net message expectedValue now =
     (let c1 = mk_call a net message False now;
          t1 = settled_at (call_result c1) in
      case outcome (call_result c1) of
        Inl err \<Rightarrow> \<lparr> finished_at = t1, returned = Inl err, calls = [c1] \<rparr>
      | Inr _ \<Rightarrow>
          (case expectedValue of
             None \<Rightarrow> \<lparr> finished_at = t1, returned = Inr None, calls = [c1] \<rparr>
           | Some expected \<Rightarrow>
               (let c2 = mk_call a net ''s'' True (t1 + 100);
                    t2 = settled_at (call_result c2) in
                case outcome (call_result c2) of
                  Inl err \<Rightarrow> \<lparr> finished_at = t2, returned = Inl err, calls = [c1, c2] \<rparr>
                | Inr actualValue \<Rightarrow>
                    (if actualValue \<noteq> Number expected then
                       (let c3 = mk_call a net message False t2;
                            t3 = settled_at (call_result c3) in
                        case outcome (call_result c3) of
                          Inl err \<Rightarrow>
                            \<lparr> finished_at = t3, returned = Inl err, calls = [c1, c2, c3] \<rparr>
                        | Inr _ \<Rightarrow>
                            \<lparr> finished_at = t3, returned = Inr (Some actualValue),
                              calls = [c1, c2, c3] \<rparr>)
                     else \<lparr> finished_at = t2, returned = Inr (Some actualValue),
                            calls = [c1, c2] \<rparr>))))"

section \<open>The state cache\<close>

text \<open>\<open>speed > 0\<close> on a promise value: \<open>undefined > 0\<close> is false.\<close>

definition greater_zero :: "jsvalue \<Rightarrow> bool" where
  "greater_zero v =
     (case v of Undefined \<Rightarrow> False | Number n \<Rightarrow> 0 < n
      | PosInfinity \<Rightarrow> True | NegInfinity \<Rightarrow> False)"

definition updateCache :: "accessory \<Rightarrow> jsvalue \<Rightarrow> nat \<Rightarrow> accessory" where
  "updateCache a speed now =
     a \<lparr> cachedSpeed := Some speed,
         cachedActive := Some (if greater_zero speed then 1 else 0),
         lastUpdate := now \<rparr>"

definition isCacheValid :: "accessory \<Rightarrow> nat \<Rightarrow> bool" where
  "isCacheValid a now = (int now - int (lastUpdate a) < int (cacheTimeout a))"

section \<open>The four operations of the accessory\<close>

text \<open>\<open>speed * 33.33\<close> and \<open>Math.round(value / 33.33)\<close>.\<close>

definition times_33_33 :: "jsvalue \<Rightarrow> jsnum" where
  "times_33_33 v =
     (case v of Undefined \<Rightarrow> NaN | Number n \<Rightarrow> Fin (of_int n * (3333 / 100))
      | PosInfinity \<Rightarrow> PosInf | NegInfinity \<Rightarrow> NegInf)"

definition Math_round :: "rat \<Rightarrow> int" where
  "Math_round x = \<lfloor>x + 1 / 2\<rfloor>"

definition to_speed :: "rat \<Rightarrow> int" where
  "to_speed percentage = Math_round (percentage / (3333 / 100))"

text \<open>The decimal text of an integer inside a template string.\<close>

function show_nat :: "nat \<Rightarrow> string" where
  "show_nat n =
     (if n < 10 then [char_of (48 + n)] else show_nat (n div 10) @ [char_of (48 + n mod 10)])"
  by pat_completeness auto
termination
  by (relation "measure id") auto

declare show_nat.simps [simp del]

definition show_int :: "int \<Rightarrow> string" where
  "show_int i = (if i < 0 then CHR ''-'' # show_nat (nat (- i)) else show_nat (nat i))"

text \<open>What an operation leaves behind: the accessory after it, the arguments of the one
  call of the host's callback (\<open>Inl err\<close> for \<open>callback(err)\<close>), the instant of that call
  and the \<open>sendCommand\<close> calls made. The host's callback is taken not to throw.\<close>

record 'r completion =
  state :: accessory
  callback :: "error + 'r"
  completed_at :: nat
  dispatched :: "call list"

definition getSpeed :: "accessory \<Rightarrow> network \<Rightarrow> nat \<Rightarrow> jsnum completion" where
  "getSpeed a net now =
     (case (if isCacheValid a now then cachedSpeed a else None) of
        Some cached \<Rightarrow>
          \<lparr> state = a, callback = Inr (times_33_33 cached), completed_at = now,
            dispatched = [] \<rparr>
      | None \<Rightarrow>
          (let c = mk_call a net ''s'' True now;
               t = settled_at (call_result c) in
           case outcome (call_result c) of
             Inr speed \<Rightarrow>
               \<lparr> state = updateCache a speed t, callback = Inr (times_33_33 speed),
                 completed_at = t, dispatched = [c] \<rparr>
           | Inl err \<Rightarrow>
               (case cachedSpeed a of
                  Some cached \<Rightarrow>
                    \<lparr> state = a, callback = Inr (times_33_33 cached), completed_at = t,
                      dispatched = [c] \<rparr>
                | None \<Rightarrow>
                    \<lparr> state = a, callback = Inl err, completed_at = t, dispatched = [c] \<rparr>)))"

definition setSpeed :: "accessory \<Rightarrow> network \<Rightarrow> rat \<Rightarrow> nat \<Rightarrow> unit completion" where
  "setSpeed a net value now =
     (let speed = to_speed value;
          f = sendCommandWithConfirmation a net (''s,'' @ show_int speed) (Some speed) now in
      case returned f of
        Inr _ \<Rightarrow>
          \<lparr> state = updateCache a (Number speed) (finished_at f), callback = Inr (),
            completed_at = finished_at f, dispatched = calls f \<rparr>
      | Inl err \<Rightarrow>
          \<lparr> state = a, callback = Inl err, completed_at = finished_at f,
            dispatched = calls f \<rparr>)"

definition getActive :: "accessory \<Rightarrow> network \<Rightarrow> nat \<Rightarrow> int completion" where
  "getActive a net now =
     (case (if isCacheValid a now then cachedActive a else None) of
        Some cached \<Rightarrow>
          \<lparr> state = a, callback = Inr cached, completed_at = now, dispatched = [] \<rparr>
      | None \<Rightarrow>
          (let c = mk_call a net ''s'' True now;
               t = settled_at (call_result c) in
           case outcome (call_result c) of
             Inr speed \<Rightarrow>
               \<lparr> state = updateCache a speed t,
                 callback = Inr (if greater_zero speed then 1 else 0),
                 completed_at = t, dispatched = [c] \<rparr>
           | Inl err \<Rightarrow>
               (case cachedActive a of
                  Some cached \<Rightarrow>
                    \<lparr> state = a, callback = Inr cached, completed_at = t, dispatched = [c] \<rparr>
                | None \<Rightarrow>
                    \<lparr> state = a, callback = Inl err, completed_at = t, dispatched = [c] \<rparr>)))"

definition setActive :: "accessory \<Rightarrow> network \<Rightarrow> int \<Rightarrow> nat \<Rightarrow> unit completion" where
  "setActive a net value now =
     (let c1 = mk_call a net (''f,'' @ show_int value) False now;
          t1 = settled_at (call_result c1) in
      case outcome (call_result c1) of
        Inl err \<Rightarrow> \<lparr> state = a, callback = Inl err, completed_at = t1, dispatched = [c1] \<rparr>
      | Inr _ \<Rightarrow>
          (if value = 0 then
             \<lparr> state = updateCache a (Number 0) t1, callback = Inr (), completed_at = t1,
               dispatched = [c1] \<rparr>
           else
             (let c2 = mk_call a net ''s'' True t1;
                  t2 = settled_at (call_result c2) in
              case outcome (call_result c2) of
                Inr speed \<Rightarrow>
                  \<lparr> state = updateCache a speed t2, callback = Inr (), completed_at = t2,
                    dispatched = [c1, c2] \<rparr>
              | Inl err \<Rightarrow>
                  \<lparr> state = a, callback = Inl err, completed_at = t2,
                    dispatched = [c1, c2] \<rparr>)))"

section \<open>Example values\<close>

text \<open>A fan configured with two retries, 3 ms between retries and 10 ms of patience; the
  cache window is left to its default.\<close>

definition example_config :: config where
  "example_config =
     \<lparr> cfg_name = ''Fan'', cfg_ip = ''192.168.1.50'', cfg_port = 4210,
       cfg_maxRetries = Some 2, cfg_retryDelay = Some 3, cfg_timeout = Some 10,
       cfg_cacheTimeout = None \<rparr>"

definition example_fan :: accessory where
  "example_fan = constructor example_config"

text \<open>A link on which every send is accepted and the listed datagrams arrive.\<close>

definition link_with :: "(nat \<times> string) list \<Rightarrow> network" where
  "link_with ds = \<lparr> send_fails = (\<lambda>t. False), arrivals = map_of ds \<rparr>"

section \<open>A lifetime of operations\<close>

text \<open>The host drives an accessory by calling its four operations, each against some
  state of the link and at some instant.\<close>

datatype operation =
    GetSpeed network nat
  | SetSpeed network rat nat
  | GetActive network nat
  | SetActive network int nat

fun perform :: "accessory \<Rightarrow> operation \<Rightarrow> accessory" where
  "perform a (GetSpeed net now) = state (getSpeed a net now)"
| "perform a (SetSpeed net percentage now) = state (setSpeed a net percentage now)"
| "perform a (GetActive net now) = state (getActive a net now)"
| "perform a (SetActive net flag now) = state (setActive a net flag now)"

definition lifetime :: "config \<Rightarrow> operation list \<Rightarrow> accessory" where
  "lifetime cfg ops = foldl perform (constructor cfg) ops"

text \<open>The two cached fields agree: both \<open>null\<close>, or the flag derived from the speed.\<close>

definition cache_coherent :: "accessory \<Rightarrow> bool" where
  "cache_coherent a =
     (case cachedSpeed a of
        None \<Rightarrow> cachedActive a = None
      | Some speed \<Rightarrow> cachedActive a = Some (if greater_zero speed then 1 else 0))"

section \<open>The response parser as the specification words it\<close>

text \<open>The specification's parser takes the first comma-separated field and reads it as a
  base-10 integer, failing when the field is not a valid integer. \<open>decimal_integer\<close> is
  that reading: an optional minus sign and then one or more decimal digits, nothing else.\<close>

definition isDecimalDigit :: "char \<Rightarrow> bool" where
  "isDecimalDigit c = (48 \<le> (of_char c :: nat) \<and> (of_char c :: nat) \<le> 57)"

definition decimal_integer :: "string \<Rightarrow> int option" where
  "decimal_integer field =
     (let negative = (field \<noteq> [] \<and> hd field = CHR ''-'');
          digits = (if negative then tl field else field)
      in if digits \<noteq> [] \<and> list_all isDecimalDigit digits
         then Some ((if negative then - 1 else 1) *
                    foldl (\<lambda>acc c. 10 * acc + ((of_char c :: int) - 48)) 0 digits)
         else None)"

definition spec_parse :: "string \<Rightarrow> error + jsvalue" where
  "spec_parse datagram =
     (case decimal_integer (takeWhile (\<lambda>c. c \<noteq> CHR '','') datagram) of
        None \<Rightarrow> Inl InvalidResponse
      | Some v \<Rightarrow> Inr (Number v))"

section \<open>Fields that begin with a number\<close>

text \<open>A description of the first fields in which a number can be read, written without
  reference to the parser: character by character, with the characters listed.
  \<^item> \<open>unsigned_number_start\<close>: the text begins with \<open>0x\<close> or \<open>0X\<close> and a hexadecimal digit
    follows that prefix, or it does not begin with \<open>0x\<close>/\<open>0X\<close> and begins with a decimal
    digit.
  \<^item> \<open>signed_number_start\<close>: one leading \<open>+\<close> or \<open>-\<close> is skipped.
  \<^item> \<open>numeric_prefix\<close>: leading blanks (tab, line feed, vertical tab, form feed,
    carriage return, space, no-break space) are skipped.\<close>

definition blank_chars :: "char list" where
  "blank_chars = [CHR 0x09, CHR 0x0A, CHR 0x0B, CHR 0x0C, CHR 0x0D, CHR 0x20, CHR 0xA0]"

definition decimal_chars :: "char list" where
  "decimal_chars = ''0123456789''"

definition hexadecimal_chars :: "char list" where
  "hexadecimal_chars = ''0123456789abcdefABCDEF''"

fun unsigned_number_start :: "string \<Rightarrow> bool" where
  "unsigned_number_start [] = False"
| "unsigned_number_start [a] = (a \<in> set decimal_chars)"
| "unsigned_number_start (a # b # rest) =
     (if a = CHR ''0'' \<and> (b = CHR ''x'' \<or> b = CHR ''X'')
      then (case rest of [] \<Rightarrow> False | h # _ \<Rightarrow> h \<in> set hexadecimal_chars)
      else a \<in> set decimal_chars)"

fun signed_number_start :: "string \<Rightarrow> bool" where
  "signed_number_start [] = False"
| "signed_number_start (c # cs) =
     (if c = CHR ''+'' \<or> c = CHR ''-'' then unsigned_number_start cs
      else unsigned_number_start (c # cs))"

fun numeric_prefix :: "string \<Rightarrow> bool" where
  "numeric_prefix [] = False"
| "numeric_prefix (c # cs) =
     (if c \<in> set blank_chars then numeric_prefix cs else signed_number_start (c # cs))"

section \<open>Facts about the dispatcher\<close>

lemma first_arrival_SomeD:
  assumes "first_arrival net now d = Some (t, msg)"
  shows "arrivals net t = Some msg \<and> now \<le> t \<and> t < now + d"
proof -
  from assms obtain t' where f: "List.find (\<lambda>t. arrivals net t \<noteq> None) [now ..< now + d] = Some t'"
    and m: "map_option (Pair t') (arrivals net t') = Some (t, msg)"
    by (auto simp: first_arrival_def split: option.splits)
  from m have "t' = t" and "arrivals net t = Some msg" by auto
  moreover from f have "t' \<in> set [now ..< now + d]"
    by (auto simp: find_Some_iff)
  ultimately show ?thesis by auto
qed

lemma first_arrival_None_iff:
  "first_arrival net now d = None \<longleftrightarrow>
     (\<forall>t. now \<le> t \<and> t < now + d \<longrightarrow> arrivals net t = None)"
  by (auto simp: first_arrival_def find_None_iff find_Some_iff split: option.splits)

text \<open>A call that expects no response resolves at once, whatever the socket does.\<close>

lemma sendCommand_no_response:
  "settled_at (sendCommand a net message False k now) = now"
  "outcome (sendCommand a net message False k now) = Inr Undefined"
  by (simp_all add: sendCommand.simps [of a net message False k now] Let_def)

lemma sendCommand_reply:
  assumes "\<not> send_fails net now"
    and "first_arrival net now (timeout a) = Some (t, msg)"
  shows "sendCommand a net message True k now =
           \<lparr> settled_at = t, outcome = handleMessage msg, sends = [(now, message)] \<rparr>"
  using assms
  by (simp add: sendCommand.simps [of a net message True k now] Let_def first_settled_def)

lemma sendCommand_silence:
  assumes "\<not> send_fails net now"
    and "first_arrival net now (timeout a) = None"
  shows "sendCommand a net message True k now =
           (if k < maxRetries a
            then (let r = sendCommand a net message True (k + 1)
                            (now + timeout a + retryDelay a)
                  in r \<lparr> sends := (now, message) # sends r \<rparr>)
            else \<lparr> settled_at = now + timeout a, outcome = Inl Timeout,
                   sends = [(now, message)] \<rparr>)"
  using assms
  by (simp add: sendCommand.simps [of a net message True k now] Let_def first_settled_def)

text \<open>A number that a response-expecting call resolves with was parsed from a datagram.\<close>

lemma sendCommand_value_from_datagram:
  "outcome (sendCommand a net message True k now) = Inr v \<Longrightarrow>
     \<exists>t msg. arrivals net t = Some msg \<and> handleMessage msg = Inr v"
proof (induction a net message "True" k now rule: sendCommand.induct)
  case (1 a net message retryCount now)
  show ?case
    using "1.prems" "1.hyps"
    apply (subst (asm) sendCommand.simps)
    apply (auto simp: Let_def first_settled_def split: if_splits option.splits)
      apply (blast dest: first_arrival_SomeD)+
    done
qed

text \<open>Silence from retry \<open>k\<close> on: the remaining \<open>n = maxRetries - k\<close> retries are all
  used, one period \<open>timeout + retryDelay\<close> apart, and the last timer rejects.\<close>

lemma sendCommand_timeouts_from:
  assumes "nat (maxRetries a - k) = n"
    and "\<forall>i\<le>n. \<not> send_fails net (t + i * (timeout a + retryDelay a))"
    and "\<forall>i\<le>n. first_arrival net (t + i * (timeout a + retryDelay a)) (timeout a) = None"
  shows "sendCommand a net message True k t =
           \<lparr> settled_at = t + n * (timeout a + retryDelay a) + timeout a,
             outcome = Inl Timeout,
             sends = map (\<lambda>i. (t + i * (timeout a + retryDelay a), message)) [0 ..< Suc n] \<rparr>"
  using assms
proof (induction n arbitrary: k t)
  case 0
  then have "\<not> k < maxRetries a" by simp
  moreover from 0 have "\<not> send_fails net t" "first_arrival net t (timeout a) = None"
    by simp_all
  ultimately show ?case
    by (simp add: sendCommand_silence)
next
  case (Suc n)
  let ?p = "timeout a + retryDelay a"
  from Suc.prems(1) have lt: "k < maxRetries a" and n: "nat (maxRetries a - (k + 1)) = n"
    by linarith+
  from Suc.prems(2,3) have here: "\<not> send_fails net t" "first_arrival net t (timeout a) = None"
    by (metis le0 add.right_neutral mult_zero_left)+
  have "\<forall>i\<le>n. \<not> send_fails net (t + ?p + i * ?p)"
  proof (intro allI impI)
    fix i assume "i \<le> n"
    then have "\<not> send_fails net (t + Suc i * ?p)"
      using Suc.prems(2) by (meson Suc_le_mono)
    then show "\<not> send_fails net (t + ?p + i * ?p)" by (simp add: add.assoc)
  qed
  moreover have "\<forall>i\<le>n. first_arrival net (t + ?p + i * ?p) (timeout a) = None"
  proof (intro allI impI)
    fix i assume "i \<le> n"
    then have "first_arrival net (t + Suc i * ?p) (timeout a) = None"
      using Suc.prems(3) by (meson Suc_le_mono)
    then show "first_arrival net (t + ?p + i * ?p) (timeout a) = None"
      by (simp add: add.assoc)
  qed
  ultimately have rec: "sendCommand a net message True (k + 1) (t + ?p) =
      \<lparr> settled_at = t + ?p + n * ?p + timeout a, outcome = Inl Timeout,
        sends = map (\<lambda>i. (t + ?p + i * ?p, message)) [0 ..< Suc n] \<rparr>"
    using Suc.IH [OF n] by blast
  have shift: "map (\<lambda>i. (t + i * ?p, message)) [0 ..< Suc (Suc n)] =
      (t, message) # map (\<lambda>i. (t + ?p + i * ?p, message)) [0 ..< Suc n]"
  proof -
    have "[0 ..< Suc (Suc n)] = 0 # map Suc [0 ..< Suc n]"
      by (metis map_Suc_upt upt_conv_Cons zero_less_Suc)
    then have "map (\<lambda>i. (t + i * ?p, message)) [0 ..< Suc (Suc n)] =
        (t, message) # map ((\<lambda>i. (t + i * ?p, message)) \<circ> Suc) [0 ..< Suc n]"
      by (simp only: list.map map_map mult_zero_left add_0_right)
    also have "(\<lambda>i. (t + i * ?p, message)) \<circ> Suc = (\<lambda>i. (t + ?p + i * ?p, message))"
      by (rule ext) (simp add: add.assoc)
    finally show ?thesis .
  qed
  have "sendCommand a net message True k t =
      (let r = sendCommand a net message True (k + 1) (t + timeout a + retryDelay a)
       in r \<lparr> sends := (t, message) # sends r \<rparr>)"
    using here lt by (simp add: sendCommand_silence)
  also have "t + timeout a + retryDelay a = t + ?p" by simp
  finally show ?case
    unfolding rec shift by (simp add: add.assoc)
qed

lemma example_fan_fields:
  "maxRetries example_fan = 2" "retryDelay example_fan = 3" "timeout example_fan = 10"
  "cacheTimeout example_fan = 2000" "cachedSpeed example_fan = None"
  "cachedActive example_fan = None" "lastUpdate example_fan = 0"
  by (simp_all add: example_fan_def example_config_def constructor_def or_default_def)

lemma link_with_fields:
  "send_fails (link_with ds) t = False" "arrivals (link_with ds) = map_of ds"
  by (simp_all add: link_with_def)

section \<open>Retries on silence\<close>

text \<open>
  Claim C2. Let \<open>maxRetries \<ge> 0\<close>, and let a response-expecting \<open>sendCommand\<close> start at
  \<open>t0\<close>. If the sends at the instants \<open>t0 + i * (timeout + retryDelay)\<close>, for
  \<open>i \<le> maxRetries\<close>, are accepted and no datagram arrives during the \<open>timeout\<close> ms after
  each of them, then the call puts exactly \<open>maxRetries + 1\<close> datagrams on the wire, each
  one \<open>retryDelay\<close> ms after the timer of the previous attempt fired, and its promise is
  rejected with the timeout error when the last timer fires.
\<close>

theorem sendCommand_silent_link_times_out:
  assumes "0 \<le> maxRetries a"
    and "\<forall>i\<le>nat (maxRetries a). \<not> send_fails net (t0 + i * (timeout a + retryDelay a))"
    and "\<forall>i\<le>nat (maxRetries a). \<forall>t.
           t0 + i * (timeout a + retryDelay a) \<le> t \<and>
           t < t0 + i * (timeout a + retryDelay a) + timeout a \<longrightarrow> arrivals net t = None"
  shows "sendCommand a net message True 0 t0 =
           \<lparr> settled_at = t0 + nat (maxRetries a) * (timeout a + retryDelay a) + timeout a,
             outcome = Inl Timeout,
             sends = map (\<lambda>i. (t0 + i * (timeout a + retryDelay a) , message))
                       [0 ..< Suc (nat (maxRetries a))] \<rparr>
         \<and> int (length (sends (sendCommand a net message True 0 t0))) = maxRetries a + 1"
proof -
  have quiet: "\<forall>i\<le>nat (maxRetries a).
      first_arrival net (t0 + i * (timeout a + retryDelay a)) (timeout a) = None"
    using assms(3) by (simp add: first_arrival_None_iff)
  have eq: "sendCommand a net message True 0 t0 =
           \<lparr> settled_at = t0 + nat (maxRetries a) * (timeout a + retryDelay a) + timeout a,
             outcome = Inl Timeout,
             sends = map (\<lambda>i. (t0 + i * (timeout a + retryDelay a) , message))
                       [0 ..< Suc (nat (maxRetries a))] \<rparr>"
    by (rule sendCommand_timeouts_from [OF _ assms(2) quiet]) simp
  moreover have "int (length (sends (sendCommand a net message True 0 t0))) = maxRetries a + 1"
    unfolding eq using assms(1) by simp
  ultimately show ?thesis by blast
qed

theorem sendCommand_silent_link_times_out_witness:
  "sendCommand example_fan (link_with []) ''s'' True 0 100 =
     \<lparr> settled_at = 136, outcome = Inl Timeout,
       sends = [(100, ''s''), (113, ''s''), (126, ''s'')] \<rparr>
   \<and> int (length (sends (sendCommand example_fan (link_with []) ''s'' True 0 100))) = 3"
  using sendCommand_silent_link_times_out [of example_fan "link_with []" 100 "''s''"]
  by (simp add: example_fan_fields link_with_fields upt_conv_Cons)

section \<open>Configuration defaults\<close>

text \<open>
  Claim C10. An option \<open>maxRetries\<close>, \<open>retryDelay\<close>, \<open>timeout\<close> or \<open>cacheTimeout\<close> that is
  configured as \<open>0\<close> gives the same accessory as the option left out, and the field holds
  the default: 3, 200 ms, 1000 ms and 2000 ms.
\<close>

theorem constructor_zero_option_is_default:
  "constructor (cfg \<lparr> cfg_maxRetries := Some 0 \<rparr>) = constructor (cfg \<lparr> cfg_maxRetries := None \<rparr>)
   \<and> maxRetries (constructor (cfg \<lparr> cfg_maxRetries := Some 0 \<rparr>)) = 3
   \<and> constructor (cfg \<lparr> cfg_retryDelay := Some 0 \<rparr>) = constructor (cfg \<lparr> cfg_retryDelay := None \<rparr>)
   \<and> retryDelay (constructor (cfg \<lparr> cfg_retryDelay := Some 0 \<rparr>)) = 200
   \<and> constructor (cfg \<lparr> cfg_timeout := Some 0 \<rparr>) = constructor (cfg \<lparr> cfg_timeout := None \<rparr>)
   \<and> timeout (constructor (cfg \<lparr> cfg_timeout := Some 0 \<rparr>)) = 1000
   \<and> constructor (cfg \<lparr> cfg_cacheTimeout := Some 0 \<rparr>)
       = constructor (cfg \<lparr> cfg_cacheTimeout := None \<rparr>)
   \<and> cacheTimeout (constructor (cfg \<lparr> cfg_cacheTimeout := Some 0 \<rparr>)) = 2000"
  by (simp add: constructor_def or_default_def)

section \<open>Speed conversion\<close>

lemma to_speed_canonical: "to_speed (of_int n * (3333 / 100)) = n"
proof -
  have "(of_int n :: rat) * (3333 / 100) / (3333 / 100) = of_int n" by simp
  then have "to_speed (of_int n * (3333 / 100)) = \<lfloor>(of_int n :: rat) + 1 / 2\<rfloor>"
    by (simp only: to_speed_def Math_round_def)
  also have "\<dots> = n" by linarith
  finally show ?thesis .
qed

lemma to_speed_range:
  assumes "0 \<le> percentage" and "percentage \<le> 100"
  shows "0 \<le> to_speed percentage \<and> to_speed percentage \<le> 3"
proof -
  let ?x = "percentage / (3333 / 100) + 1 / 2"
  have "percentage / (3333 / 100) = percentage * (100 / 3333)" by simp
  then have "0 \<le> ?x" and "?x < 4" using assms by auto
  then have "0 \<le> \<lfloor>?x\<rfloor>" and "\<lfloor>?x\<rfloor> < 4" by (simp_all add: floor_less_iff)
  then show ?thesis by (simp add: to_speed_def Math_round_def)
qed

text \<open>
  Claim C8. For every percentage between 0 and 100, \<open>Math.round(percentage / 33.33)\<close> is
  one of 0, 1, 2, 3, and converting the canonical percentage of that level
  (level \<open>\<times>\<close> 33.33) gives the level back.
\<close>

theorem to_speed_levels_and_idempotent:
  assumes "0 \<le> percentage" and "percentage \<le> 100"
  shows "to_speed percentage \<in> {0, 1, 2, 3}
       \<and> to_speed (of_int (to_speed percentage) * (3333 / 100)) = to_speed percentage"
proof -
  from to_speed_range [OF assms] have "to_speed percentage \<in> {0, 1, 2, 3}" by auto
  with to_speed_canonical [of "to_speed percentage"] show ?thesis by blast
qed

theorem to_speed_levels_and_idempotent_witness:
  "(0::rat) \<le> 50 \<and> (50::rat) \<le> 100 \<and> to_speed 50 \<in> {0, 1, 2, 3}
   \<and> to_speed (of_int (to_speed 50) * (3333 / 100)) = to_speed 50"
  using to_speed_levels_and_idempotent [of 50] by simp

section \<open>Reads and the cache\<close>

lemma silent_link_times_out:
  "outcome (sendCommand a (link_with []) message True 0 now) = Inl Timeout"
  using sendCommand_timeouts_from [of a 0 "nat (maxRetries a)" "link_with []" now message]
  by (simp add: link_with_fields first_arrival_None_iff)

text \<open>
  Claim C5. For \<open>getSpeed\<close> and for \<open>getActive\<close>: with a cache written less than
  \<open>cacheTimeout\<close> ago that holds a value, the cached value is handed to the callback at
  once and no \<open>sendCommand\<close> call is made; with a stale cache that holds a value and a
  status query that fails, the cached value is handed to the callback and no error; the
  callback gets the error exactly when the query fails and nothing is cached.
\<close>

theorem reads_use_the_cache:
  "(\<forall>v. isCacheValid a now \<and> cachedSpeed a = Some v \<longrightarrow>
        getSpeed a net now =
          \<lparr> state = a, callback = Inr (times_33_33 v), completed_at = now, dispatched = [] \<rparr>)
   \<and> (\<forall>v e. \<not> isCacheValid a now \<and> cachedSpeed a = Some v
            \<and> outcome (sendCommand a net ''s'' True 0 now) = Inl e \<longrightarrow>
        callback (getSpeed a net now) = Inr (times_33_33 v) \<and> state (getSpeed a net now) = a)
   \<and> (\<forall>e. callback (getSpeed a net now) = Inl e \<longleftrightarrow>
        cachedSpeed a = None \<and> outcome (sendCommand a net ''s'' True 0 now) = Inl e)
   \<and> (\<forall>v. isCacheValid a now \<and> cachedActive a = Some v \<longrightarrow>
        getActive a net now =
          \<lparr> state = a, callback = Inr v, completed_at = now, dispatched = [] \<rparr>)
   \<and> (\<forall>v e. \<not> isCacheValid a now \<and> cachedActive a = Some v
            \<and> outcome (sendCommand a net ''s'' True 0 now) = Inl e \<longrightarrow>
        callback (getActive a net now) = Inr v \<and> state (getActive a net now) = a)
   \<and> (\<forall>e. callback (getActive a net now) = Inl e \<longleftrightarrow>
        cachedActive a = None \<and> outcome (sendCommand a net ''s'' True 0 now) = Inl e)"
proof (intro conjI allI)
  fix v
  show "isCacheValid a now \<and> cachedSpeed a = Some v \<longrightarrow>
        getSpeed a net now =
          \<lparr> state = a, callback = Inr (times_33_33 v), completed_at = now, dispatched = [] \<rparr>"
    by (simp add: getSpeed_def)
  show "isCacheValid a now \<and> cachedActive a = Some v \<longrightarrow>
        getActive a net now =
          \<lparr> state = a, callback = Inr v, completed_at = now, dispatched = [] \<rparr>" for v
    by (simp add: getActive_def)
next
  fix v e
  show "\<not> isCacheValid a now \<and> cachedSpeed a = Some v
            \<and> outcome (sendCommand a net ''s'' True 0 now) = Inl e \<longrightarrow>
        callback (getSpeed a net now) = Inr (times_33_33 v) \<and> state (getSpeed a net now) = a"
    by (simp add: getSpeed_def mk_call_def Let_def)
  show "\<not> isCacheValid a now \<and> cachedActive a = Some v
            \<and> outcome (sendCommand a net ''s'' True 0 now) = Inl e \<longrightarrow>
        callback (getActive a net now) = Inr v \<and> state (getActive a net now) = a" for v
    by (simp add: getActive_def mk_call_def Let_def)
next
  fix e
  show "callback (getSpeed a net now) = Inl e \<longleftrightarrow>
        cachedSpeed a = None \<and> outcome (sendCommand a net ''s'' True 0 now) = Inl e"
    by (auto simp: getSpeed_def mk_call_def Let_def split: option.splits sum.splits if_splits)
  show "callback (getActive a net now) = Inl e \<longleftrightarrow>
        cachedActive a = None \<and> outcome (sendCommand a net ''s'' True 0 now) = Inl e"
    by (auto simp: getActive_def mk_call_def Let_def split: option.splits sum.splits if_splits)
qed

text \<open>The cache is written at 1000 with speed 2 and the window is 2000 ms: a read at 2999
  is served from the cache, a read at 3001 over a silent link falls back to it, and a
  fresh accessory over a silent link reports the timeout.\<close>

theorem reads_use_the_cache_witness:
  "getSpeed (updateCache example_fan (Number 2) 1000) (link_with []) 2999 =
     \<lparr> state = updateCache example_fan (Number 2) 1000,
       callback = Inr (times_33_33 (Number 2)), completed_at = 2999, dispatched = [] \<rparr>
   \<and> callback (getSpeed (updateCache example_fan (Number 2) 1000) (link_with []) 3001)
       = Inr (times_33_33 (Number 2))
   \<and> callback (getSpeed example_fan (link_with []) 3001) = Inl Timeout
   \<and> getActive (updateCache example_fan (Number 2) 1000) (link_with []) 2999 =
     \<lparr> state = updateCache example_fan (Number 2) 1000,
       callback = Inr 1, completed_at = 2999, dispatched = [] \<rparr>
   \<and> callback (getActive (updateCache example_fan (Number 2) 1000) (link_with []) 3001) = Inr 1
   \<and> callback (getActive example_fan (link_with []) 3001) = Inl Timeout"
proof -
  let ?a = "updateCache example_fan (Number 2) 1000"
  have fresh: "isCacheValid ?a 2999" and stale: "\<not> isCacheValid ?a 3001"
    and never: "\<not> isCacheValid example_fan 3001"
    by (simp_all add: isCacheValid_def updateCache_def example_fan_fields)
  have held: "cachedSpeed ?a = Some (Number 2)" "cachedActive ?a = Some 1"
    by (simp_all add: updateCache_def greater_zero_def)
  note q = silent_link_times_out
  show ?thesis
    using reads_use_the_cache [where a = ?a and now = 2999 and net = "link_with []"]
      reads_use_the_cache [where a = ?a and now = 3001 and net = "link_with []"]
      reads_use_the_cache [where a = example_fan and now = 3001 and net = "link_with []"]
    by (simp add: fresh stale never held q example_fan_fields)
qed

section \<open>Power\<close>





section \<open>Confirmed writes: the protocol\<close>



section \<open>The cached fields move together\<close>

lemma updateCache_coherent: "cache_coherent (updateCache a speed now)"
  by (simp add: cache_coherent_def updateCache_def)

text \<open>An operation leaves the accessory as it was or ends with one \<open>updateCache\<close>.\<close>

lemma perform_cases:
  "perform a op = a \<or> (\<exists>speed now. perform a op = updateCache a speed now)"
proof (cases op)
  case (GetSpeed net now)
  then show ?thesis
    by (auto simp: getSpeed_def Let_def split: option.splits sum.splits if_splits)
next
  case (SetSpeed net percentage now)
  then show ?thesis
    by (auto simp: setSpeed_def Let_def split: sum.splits)
next
  case (GetActive net now)
  then show ?thesis
    by (auto simp: getActive_def Let_def split: option.splits sum.splits if_splits)
next
  case (SetActive net flag now)
  then show ?thesis
    by (auto simp: setActive_def Let_def split: sum.splits)
qed

lemma perform_coherent: "cache_coherent a \<Longrightarrow> cache_coherent (perform a op)"
  using perform_cases [of a op] by (auto simp: updateCache_coherent)

lemma foldl_perform_coherent: "cache_coherent a \<Longrightarrow> cache_coherent (foldl perform a ops)"
  by (induction ops arbitrary: a) (simp_all add: perform_coherent)

lemma constructor_coherent: "cache_coherent (constructor cfg)"
  by (simp add: cache_coherent_def constructor_def)

text \<open>
  Claim C9. After construction and any sequence of the four operations, over any links and
  at any instants: when the cached speed is not \<open>null\<close>, the cached active flag is 1 if
  that speed is greater than 0 and is 0 otherwise. The reason is that an operation writes
  the cache only through \<open>updateCache\<close>, which sets the speed and the flag derived from
  it in one step.
\<close>

theorem cached_fields_never_diverge:
  "(\<forall>speed. cachedSpeed (lifetime cfg ops) = Some speed \<longrightarrow>
      (cachedActive (lifetime cfg ops) = Some 1 \<longleftrightarrow> greater_zero speed)
      \<and> (cachedActive (lifetime cfg ops) = Some 0 \<longleftrightarrow> \<not> greater_zero speed))
   \<and> (\<forall>a op. perform a op = a \<or> (\<exists>speed now. perform a op = updateCache a speed now))
   \<and> (\<forall>a speed now. cachedSpeed (updateCache a speed now) = Some speed
         \<and> cachedActive (updateCache a speed now) = Some (if greater_zero speed then 1 else 0))"
proof -
  have "cache_coherent (lifetime cfg ops)"
    unfolding lifetime_def by (rule foldl_perform_coherent [OF constructor_coherent])
  then have "\<forall>speed. cachedSpeed (lifetime cfg ops) = Some speed \<longrightarrow>
      (cachedActive (lifetime cfg ops) = Some 1 \<longleftrightarrow> greater_zero speed)
      \<and> (cachedActive (lifetime cfg ops) = Some 0 \<longleftrightarrow> \<not> greater_zero speed)"
    by (auto simp: cache_coherent_def split: if_splits)
  moreover have "\<forall>a speed now. cachedSpeed (updateCache a speed now) = Some speed
         \<and> cachedActive (updateCache a speed now) = Some (if greater_zero speed then 1 else 0)"
    by (simp add: updateCache_def)
  ultimately show ?thesis using perform_cases by blast
qed

text \<open>The fan is switched on, reports speed 2, and is switched off again.\<close>

theorem cached_fields_never_diverge_witness:
  "cachedSpeed (lifetime example_config [SetActive (link_with [(4, ''2'')]) 1 0]) = Some (Number 2)
   \<and> cachedActive (lifetime example_config [SetActive (link_with [(4, ''2'')]) 1 0]) = Some 1
   \<and> cachedSpeed (lifetime example_config
        [SetActive (link_with [(4, ''2'')]) 1 0, SetActive (link_with []) 0 50]) = Some (Number 0)
   \<and> cachedActive (lifetime example_config
        [SetActive (link_with [(4, ''2'')]) 1 0, SetActive (link_with []) 0 50]) = Some 0"
proof -
  have s1: "cachedSpeed (lifetime example_config [SetActive (link_with [(4, ''2'')]) 1 0])
      = Some (Number 2)"
    by code_simp
  have s2: "cachedSpeed (lifetime example_config
        [SetActive (link_with [(4, ''2'')]) 1 0, SetActive (link_with []) 0 50]) = Some (Number 0)"
    by code_simp
  have g: "greater_zero (Number 2)" "\<not> greater_zero (Number 0)"
    by (simp_all add: greater_zero_def)
  show ?thesis
    using cached_fields_never_diverge [where cfg = example_config
        and ops = "[SetActive (link_with [(4, ''2'')]) 1 0]"]
      cached_fields_never_diverge [where cfg = example_config
        and ops = "[SetActive (link_with [(4, ''2'')]) 1 0, SetActive (link_with []) 0 50]"]
      s1 s2 g
    by blast
qed

section \<open>Writing the speed\<close>

lemma setSpeed_success:
  "callback (setSpeed a net percentage now) = Inr () \<Longrightarrow>
     state (setSpeed a net percentage now)
       = updateCache a (Number (to_speed percentage)) (completed_at (setSpeed a net percentage now))"
  by (auto simp: setSpeed_def Let_def split: sum.splits)

text \<open>
  Claim C1, as the code has it. After a successful \<open>setSpeed(percentage)\<close> the cache holds
  the intended speed \<open>Math.round(percentage / 33.33)\<close>, with the flag derived from it and
  the instant of completion as the time of the update; the value that
  \<open>sendCommandWithConfirmation\<close> returns is not used.
\<close>

theorem setSpeed_caches_intended_speed:
  assumes "callback (setSpeed a net percentage now) = Inr ()"
  shows "state (setSpeed a net percentage now)
           = updateCache a (Number (to_speed percentage))
               (completed_at (setSpeed a net percentage now))
       \<and> cachedSpeed (state (setSpeed a net percentage now)) = Some (Number (to_speed percentage))"
  using setSpeed_success [OF assms] by (simp add: updateCache_def)

theorem setSpeed_caches_intended_speed_witness:
  "callback (setSpeed example_fan (link_with [(105, ''1'')]) 50 0) = Inr ()
   \<and> cachedSpeed (state (setSpeed example_fan (link_with [(105, ''1'')]) 50 0))
       = Some (Number (to_speed 50))"
proof -
  have ok: "callback (setSpeed example_fan (link_with [(105, ''1'')]) 50 0) = Inr ()"
    by code_simp
  show ?thesis
    using setSpeed_caches_intended_speed [OF ok] ok by blast
qed

text \<open>
  Claim C1 as stated fails: \<open>setSpeed(50)\<close> intends speed 2, the device reports 1 in the
  confirmation, the call succeeds, and the cache holds 2, not the confirmed 1.
\<close>

theorem setSpeed_caches_confirmed_value_counterexample:
  "callback (setSpeed example_fan (link_with [(105, ''1'')]) 50 0) = Inr ()
   \<and> returned (sendCommandWithConfirmation example_fan (link_with [(105, ''1'')])
        (''s,'' @ show_int (to_speed 50)) (Some (to_speed 50)) 0) = Inr (Some (Number 1))
   \<and> cachedSpeed (state (setSpeed example_fan (link_with [(105, ''1'')]) 50 0))
       \<noteq> Some (Number 1)"
  by code_simp

section \<open>Write, then read\<close>

text \<open>
  Claim C7. Let every send be accepted, let a datagram arrive while the confirmation query
  of \<open>setSpeed\<close> is listening, and let every datagram on the socket report the speed
  \<open>L\<close>. Then \<open>setSpeed(L \<times> 33.33)\<close> succeeds, and a \<open>getSpeed\<close> at any later instant
  hands its callback a percentage within one unit of \<open>L \<times> 33.33\<close> (the very same
  number, in exact arithmetic). This holds for every integer \<open>L\<close>, so for 0, 1, 2 and 3.
\<close>

theorem setSpeed_getSpeed_round_trip:
  assumes sends_ok: "\<forall>t. \<not> send_fails net t"
    and confirms: "\<exists>t. t0 + 100 \<le> t \<and> t < t0 + 100 + timeout a \<and> arrivals net t \<noteq> None"
    and reports: "\<forall>t msg. arrivals net t = Some msg \<longrightarrow> handleMessage msg = Inr (Number L)"
  shows "callback (setSpeed a net (of_int L * (3333 / 100)) t0) = Inr ()
       \<and> (\<exists>p. callback (getSpeed (state (setSpeed a net (of_int L * (3333 / 100)) t0)) net t1)
                 = Inr (Fin p)
              \<and> \<bar>p - of_int L * (3333 / 100)\<bar> \<le> 1)"
proof -
  let ?v = "of_int L * (3333 / 100) :: rat"
  let ?set = "setSpeed a net ?v t0"
  from confirms have "first_arrival net (t0 + 100) (timeout a) \<noteq> None"
    by (auto simp: first_arrival_None_iff)
  then obtain ta msg where fa: "first_arrival net (t0 + 100) (timeout a) = Some (ta, msg)"
    by auto
  then have "arrivals net ta = Some msg" by (simp add: first_arrival_SomeD)
  with reports have hm: "handleMessage msg = Inr (Number L)" by blast
  have q: "sendCommand a net ''s'' True 0 (t0 + 100) =
      \<lparr> settled_at = ta, outcome = Inr (Number L), sends = [(t0 + 100, ''s'')] \<rparr>"
    using sendCommand_reply [OF _ fa] sends_ok hm by simp
  have conf: "returned (sendCommandWithConfirmation a net m (Some L) t0)
      = Inr (Some (Number L))" for m
    by (simp add: sendCommandWithConfirmation_def mk_call_def Let_def sendCommand_no_response q)
  have sp: "to_speed ?v = L" by (rule to_speed_canonical)
  have ok: "callback ?set = Inr ()"
    unfolding setSpeed_def Let_def sp by (simp add: conf)
  have cached: "cachedSpeed (state ?set) = Some (Number L)"
    unfolding setSpeed_success [OF ok] sp by (simp add: updateCache_def)
  define a' where "a' = state ?set"
  have cached': "cachedSpeed a' = Some (Number L)"
    unfolding a'_def by (rule cached)
  have "callback (getSpeed a' net t1) = Inr (Fin ?v)"
  proof (cases "isCacheValid a' t1")
    case True
    then show ?thesis by (simp add: getSpeed_def cached' times_33_33_def)
  next
    case False
    show ?thesis
    proof (cases "outcome (sendCommand a' net ''s'' True 0 t1)")
      case (Inl e)
      with False show ?thesis
        by (simp add: getSpeed_def mk_call_def Let_def cached' times_33_33_def)
    next
      case (Inr v)
      from sendCommand_value_from_datagram [OF Inr] reports have "v = Number L" by force
      with False Inr show ?thesis
        by (simp add: getSpeed_def mk_call_def Let_def times_33_33_def)
    qed
  qed
  then have "callback (getSpeed (state ?set) net t1) = Inr (Fin ?v)"
    unfolding a'_def .
  moreover have "\<bar>?v - ?v\<bar> \<le> 1" by simp
  ultimately show ?thesis using ok by blast
qed

lemma handleMessage_2: "handleMessage ''2'' = Inr (Number 2)"
  by code_simp

text \<open>Speed 2 is set at 0, confirmed at 105, and read back at 5000, when the cache is
  stale and the device answers again.\<close>

theorem setSpeed_getSpeed_round_trip_witness:
  "callback (setSpeed example_fan (link_with [(105, ''2''), (5003, ''2'')])
      (of_int 2 * (3333 / 100)) 0) = Inr ()
   \<and> (\<exists>p. callback (getSpeed (state (setSpeed example_fan
                (link_with [(105, ''2''), (5003, ''2'')]) (of_int 2 * (3333 / 100)) 0))
              (link_with [(105, ''2''), (5003, ''2'')]) 5000) = Inr (Fin p)
          \<and> \<bar>p - of_int 2 * (3333 / 100)\<bar> \<le> 1)"
proof -
  let ?net = "link_with [(105, ''2''), (5003, ''2'')]"
  have h1: "\<forall>t. \<not> send_fails ?net t"
    by (simp add: link_with_fields)
  have "0 + 100 \<le> (105::nat) \<and> (105::nat) < 0 + 100 + timeout example_fan
      \<and> arrivals ?net 105 \<noteq> None"
    by (simp add: link_with_fields example_fan_fields)
  then have h2: "\<exists>t. 0 + 100 \<le> t \<and> t < 0 + 100 + timeout example_fan \<and> arrivals ?net t \<noteq> None"
    by (rule exI)
  have h3: "\<forall>t msg. arrivals ?net t = Some msg \<longrightarrow> handleMessage msg = Inr (Number 2)"
    by (auto simp: link_with_fields handleMessage_2 split: if_splits)
  show ?thesis
    by (rule setSpeed_getSpeed_round_trip [OF h1 h2 h3])
qed

section \<open>Replies\<close>

lemma takeWhile_Nil_iff: "takeWhile P xs = [] \<longleftrightarrow> xs = [] \<or> \<not> P (hd xs)"
  by (cases xs) simp_all

text \<open>The character classes of \<open>parseInt\<close>, given by code, are the listed characters.\<close>

lemma radixDigit_10_iff: "radixDigit 10 c \<longleftrightarrow> c \<in> set decimal_chars"
proof -
  have "c \<in> set decimal_chars \<longleftrightarrow> (of_char c :: int) \<in> of_char ` set decimal_chars"
    by (simp add: inj_image_mem_iff [OF inj_of_char])
  also have "\<dots> \<longleftrightarrow> 48 \<le> (of_char c :: int) \<and> (of_char c :: int) \<le> 57"
    unfolding decimal_chars_def by (simp) arith
  also have "\<dots> \<longleftrightarrow> radixDigit 10 c"
    by (auto simp: radixDigit_def digitValue_def Let_def)
  finally show ?thesis by simp
qed

lemma radixDigit_16_iff: "radixDigit 16 c \<longleftrightarrow> c \<in> set hexadecimal_chars"
proof -
  have "c \<in> set hexadecimal_chars \<longleftrightarrow> (of_char c :: int) \<in> of_char ` set hexadecimal_chars"
    by (simp add: inj_image_mem_iff [OF inj_of_char])
  also have "\<dots> \<longleftrightarrow> (48 \<le> (of_char c :: int) \<and> (of_char c :: int) \<le> 57)
      \<or> (97 \<le> (of_char c :: int) \<and> (of_char c :: int) \<le> 102)
      \<or> (65 \<le> (of_char c :: int) \<and> (of_char c :: int) \<le> 70)"
    unfolding hexadecimal_chars_def by (simp) arith
  also have "\<dots> \<longleftrightarrow> radixDigit 16 c"
    by (auto simp: radixDigit_def digitValue_def Let_def)
  finally show ?thesis by simp
qed

lemma isWhiteSpace_iff: "isWhiteSpace c \<longleftrightarrow> c \<in> set blank_chars"
proof -
  have "c \<in> set blank_chars \<longleftrightarrow> (of_char c :: nat) \<in> of_char ` set blank_chars"
    by (simp add: inj_image_mem_iff [OF inj_of_char])
  also have "\<dots> \<longleftrightarrow> isWhiteSpace c"
    unfolding blank_chars_def isWhiteSpace_def by simp
  finally show ?thesis by simp
qed

lemma numeric_prefix_dropWhile:
  "numeric_prefix field = signed_number_start (dropWhile isWhiteSpace field)"
  by (induction field) (simp_all add: isWhiteSpace_iff)

lemma signed_number_start_tl:
  "signed_number_start S =
     unsigned_number_start
       (if S \<noteq> [] \<and> (hd S = CHR ''+'' \<or> hd S = CHR ''-'') then tl S else S)"
  by (cases S) simp_all

lemma unsigned_number_start_radix:
  "unsigned_number_start S1 =
     (if take 2 S1 = ''0x'' \<or> take 2 S1 = ''0X''
      then drop 2 S1 \<noteq> [] \<and> radixDigit 16 (hd (drop 2 S1))
      else S1 \<noteq> [] \<and> radixDigit 10 (hd S1))"
proof (cases S1 rule: unsigned_number_start.cases)
  case 1
  then show ?thesis by simp
next
  case (2 a)
  then show ?thesis by (simp add: radixDigit_10_iff)
next
  case (3 a b rest)
  then show ?thesis
    by (cases rest) (auto simp: radixDigit_10_iff radixDigit_16_iff numeral_2_eq_2)
qed

lemma parseInt_None_iff: "parseInt field = None \<longleftrightarrow> \<not> numeric_prefix field"
proof -
  define S1 where "S1 = (let S = dropWhile isWhiteSpace field in
      if S \<noteq> [] \<and> (hd S = CHR ''+'' \<or> hd S = CHR ''-'') then tl S else S)"
  have "parseInt field = None \<longleftrightarrow>
      takeWhile (radixDigit (if take 2 S1 = ''0x'' \<or> take 2 S1 = ''0X'' then 16 else 10))
        (if take 2 S1 = ''0x'' \<or> take 2 S1 = ''0X'' then drop 2 S1 else S1) = []"
    by (simp add: parseInt_def S1_def Let_def split: option.splits)
  also have "\<dots> \<longleftrightarrow> \<not> unsigned_number_start S1"
    by (simp add: unsigned_number_start_radix takeWhile_Nil_iff)
  also have "unsigned_number_start S1 = numeric_prefix field"
    by (simp add: numeric_prefix_dropWhile signed_number_start_tl S1_def Let_def)
  finally show ?thesis .
qed

lemma decimal_digit_facts:
  assumes "isDecimalDigit c"
  shows "digitValue c = Some ((of_char c :: int) - 48)" "radixDigit 10 c" "\<not> isWhiteSpace c"
    "c \<noteq> CHR ''+''" "c \<noteq> CHR ''-''" "c \<noteq> CHR ''x''" "c \<noteq> CHR ''X''"
proof -
  have n: "(of_char c :: int) = int (of_char c)"
    by (simp add: of_nat_of_char)
  from assms have r: "48 \<le> (of_char c :: int)" "(of_char c :: int) \<le> 57"
    unfolding n isDecimalDigit_def by simp_all
  then show "digitValue c = Some ((of_char c :: int) - 48)" "radixDigit 10 c"
    by (simp_all add: digitValue_def radixDigit_def Let_def)
  from assms show "\<not> isWhiteSpace c"
    "c \<noteq> CHR ''+''" "c \<noteq> CHR ''-''" "c \<noteq> CHR ''x''" "c \<noteq> CHR ''X''"
    by (auto simp: isDecimalDigit_def isWhiteSpace_def)
qed

lemma mathInt_decimal:
  assumes "list_all isDecimalDigit ds"
  shows "foldl (\<lambda>acc c. acc * 10 + (case digitValue c of None \<Rightarrow> 0 | Some v \<Rightarrow> v)) n ds
       = foldl (\<lambda>acc c. 10 * acc + ((of_char c :: int) - 48)) n ds"
  using assms by (induction ds arbitrary: n) (simp_all add: decimal_digit_facts(1) mult.commute)

lemma parseInt_digits:
  assumes "ds \<noteq> []" and "list_all isDecimalDigit ds"
  shows "takeWhile (radixDigit 10) ds = ds" "take 2 ds \<noteq> ''0x''" "take 2 ds \<noteq> ''0X''"
proof -
  show "takeWhile (radixDigit 10) ds = ds"
    using assms(2) by (simp add: takeWhile_eq_all_conv list_all_iff decimal_digit_facts(2))
  obtain d ds' where ds: "ds = d # ds'" using assms(1) by (cases ds) auto
  show "take 2 ds \<noteq> ''0x''"
  proof (cases ds')
    case Nil then show ?thesis by (simp add: ds)
  next
    case (Cons e es)
    with assms(2) ds have "e \<noteq> CHR ''x''" by (simp add: decimal_digit_facts(6))
    then show ?thesis by (simp add: ds Cons numeral_2_eq_2)
  qed
  show "take 2 ds \<noteq> ''0X''"
  proof (cases ds')
    case Nil then show ?thesis by (simp add: ds)
  next
    case (Cons e es)
    with assms(2) ds have "e \<noteq> CHR ''X''" by (simp add: decimal_digit_facts(7))
    then show ?thesis by (simp add: ds Cons numeral_2_eq_2)
  qed
qed

lemma toNumber_exact: "m \<le> 2 ^ 53 \<Longrightarrow> toNumber m = Some m"
  by (simp add: toNumber_def)

text \<open>On a field that is a valid decimal integer of magnitude at most \<open>2 ^ 53\<close>,
  \<open>parseInt\<close> reads that integer.\<close>

lemma parseInt_decimal_integer:
  assumes "decimal_integer field = Some i" and "\<bar>i\<bar> \<le> 2 ^ 53"
  shows "parseInt field = Some (Number i)"
proof (cases "field \<noteq> [] \<and> hd field = CHR ''-''")
  case True
  then obtain ds where f: "field = CHR ''-'' # ds" by (cases field) auto
  define m where "m = foldl (\<lambda>acc c. 10 * acc + ((of_char c :: int) - 48)) 0 ds"
  from assms(1) f have ds: "ds \<noteq> []" "list_all isDecimalDigit ds" and i: "i = - m"
    by (auto simp: decimal_integer_def Let_def m_def split: if_splits)
  from assms(2) i have "m \<le> 2 ^ 53" by simp
  then have tn: "toNumber m = Some m" by (rule toNumber_exact)
  have mi: "mathInt 10 ds = m"
    by (simp add: mathInt_def m_def mathInt_decimal [OF ds(2)])
  have ws: "\<not> isWhiteSpace CHR ''-''" by (simp add: isWhiteSpace_def)
  show ?thesis
    by (simp add: parseInt_def f ws Let_def ds parseInt_digits [OF ds] mi tn i)
next
  case False
  define m where "m = foldl (\<lambda>acc c. 10 * acc + ((of_char c :: int) - 48)) 0 field"
  from False assms(1) have ds: "field \<noteq> []" "list_all isDecimalDigit field" and i: "i = m"
    by (auto simp: decimal_integer_def Let_def m_def split: if_splits)
  from assms(2) i have "m \<le> 2 ^ 53" by simp
  then have tn: "toNumber m = Some m" by (rule toNumber_exact)
  have mi: "mathInt 10 field = m"
    by (simp add: mathInt_def m_def mathInt_decimal [OF ds(2)])
  from ds obtain d ds' where f: "field = d # ds'" and d: "isDecimalDigit d"
    by (cases field) auto
  have dw: "dropWhile isWhiteSpace field = field"
    by (simp add: f decimal_digit_facts(3) [OF d])
  have hd: "hd field \<noteq> CHR ''+''" "hd field \<noteq> CHR ''-''"
    using decimal_digit_facts(4,5) [OF d] by (simp_all add: f)
  show ?thesis
    by (simp add: parseInt_def dw Let_def ds hd parseInt_digits [OF ds] mi tn i)
qed

lemma spec_parse_value:
  "spec_parse msg = Inr (Number i) \<Longrightarrow> \<bar>i\<bar> \<le> 2 ^ 53 \<Longrightarrow> handleMessage msg = Inr (Number i)"
  by (auto simp: spec_parse_def handleMessage_def Let_def parseInt_decimal_integer
      split: option.splits)

lemma handleMessage_InvalidResponse_iff:
  "handleMessage msg = Inl InvalidResponse
     \<longleftrightarrow> \<not> numeric_prefix (takeWhile (\<lambda>c. c \<noteq> CHR '','') msg)"
  by (simp add: handleMessage_def Let_def parseInt_None_iff [symmetric] split: option.splits)

lemma handleMessage_trailing:
  "handleMessage (takeWhile (\<lambda>c. c \<noteq> CHR '','') msg @ CHR '','' # rest) = handleMessage msg"
proof -
  have "takeWhile (\<lambda>c. c \<noteq> CHR '','') (takeWhile (\<lambda>c. c \<noteq> CHR '','') msg @ CHR '','' # rest)
      = takeWhile (\<lambda>c. c \<noteq> CHR '','') msg"
    by (induction msg) simp_all
  then show ?thesis by (simp add: handleMessage_def)
qed

text \<open>
  Claim C4, as the code has it. Let the send of a response-expecting \<open>sendCommand\<close> be
  accepted and let \<open>msg\<close> be the first datagram that arrives while it listens. Then the
  call settles when the datagram arrives, with \<open>parseInt\<close> of the text before the first
  comma, after a single send (no retry is used, whatever the retry count), and:
  \<^item> it fails with the invalid-response error exactly when that first field does not begin
    with a number: after leading blanks and one optional sign, the field either begins with
    \<open>0x\<close>/\<open>0X\<close> and no hexadecimal digit follows the prefix, or does not begin with
    \<open>0x\<close>/\<open>0X\<close> and does not begin with a decimal digit;
  \<^item> a first field that is a valid decimal integer of magnitude at most \<open>2 ^ 53\<close> yields
    that integer;
  \<^item> what follows the first comma is ignored.

  A field with a numeric prefix only, such as \<open>2x\<close>, yields the prefix and no error.
\<close>

theorem reply_is_parsed_without_retry:
  assumes "\<not> send_fails net now"
    and "first_arrival net now (timeout a) = Some (t, msg)"
  shows "sendCommand a net message True k now =
           \<lparr> settled_at = t,
             outcome = (case parseInt (takeWhile (\<lambda>c. c \<noteq> CHR '','') msg) of
                          None \<Rightarrow> Inl InvalidResponse
                        | Some value \<Rightarrow> Inr value),
             sends = [(now, message)] \<rparr>
       \<and> (outcome (sendCommand a net message True k now) = Inl InvalidResponse
            \<longleftrightarrow> \<not> numeric_prefix (takeWhile (\<lambda>c. c \<noteq> CHR '','') msg))
       \<and> (\<forall>i. spec_parse msg = Inr (Number i) \<and> \<bar>i\<bar> \<le> 2 ^ 53 \<longrightarrow>
            outcome (sendCommand a net message True k now) = Inr (Number i))
       \<and> (\<forall>rest. handleMessage (takeWhile (\<lambda>c. c \<noteq> CHR '','') msg @ CHR '','' # rest)
            = outcome (sendCommand a net message True k now))"
proof -
  have r: "sendCommand a net message True k now =
      \<lparr> settled_at = t, outcome = handleMessage msg, sends = [(now, message)] \<rparr>"
    by (rule sendCommand_reply [OF assms])
  have c1: "sendCommand a net message True k now =
           \<lparr> settled_at = t,
             outcome = (case parseInt (takeWhile (\<lambda>c. c \<noteq> CHR '','') msg) of
                          None \<Rightarrow> Inl InvalidResponse
                        | Some value \<Rightarrow> Inr value),
             sends = [(now, message)] \<rparr>"
    unfolding r by (simp add: handleMessage_def)
  have o: "outcome (sendCommand a net message True k now) = handleMessage msg"
    unfolding r by simp
  have c2: "outcome (sendCommand a net message True k now) = Inl InvalidResponse
            \<longleftrightarrow> \<not> numeric_prefix (takeWhile (\<lambda>c. c \<noteq> CHR '','') msg)"
    unfolding o by (rule handleMessage_InvalidResponse_iff)
  have c3: "\<forall>i. spec_parse msg = Inr (Number i) \<and> \<bar>i\<bar> \<le> 2 ^ 53 \<longrightarrow>
            outcome (sendCommand a net message True k now) = Inr (Number i)"
    unfolding o by (blast intro: spec_parse_value)
  have c4: "\<forall>rest. handleMessage (takeWhile (\<lambda>c. c \<noteq> CHR '','') msg @ CHR '','' # rest)
            = outcome (sendCommand a net message True k now)"
    unfolding o by (simp only: handleMessage_trailing) simp
  from c1 c2 c3 c4 show ?thesis by blast
qed

text \<open>The replies \<open>2,extra\<close>, \<open>x\<close> and \<open>0x\<close> to a first attempt that has two retries
  left.\<close>

theorem reply_is_parsed_without_retry_witness:
  "sendCommand example_fan (link_with [(104, ''2,extra'')]) ''s'' True 0 100 =
     \<lparr> settled_at = 104, outcome = Inr (Number 2), sends = [(100, ''s'')] \<rparr>
   \<and> sendCommand example_fan (link_with [(104, ''x'')]) ''s'' True 0 100 =
     \<lparr> settled_at = 104, outcome = Inl InvalidResponse, sends = [(100, ''s'')] \<rparr>
   \<and> sendCommand example_fan (link_with [(104, ''0x'')]) ''s'' True 0 100 =
     \<lparr> settled_at = 104, outcome = Inl InvalidResponse, sends = [(100, ''s'')] \<rparr>"
proof -
  have s: "\<not> send_fails (link_with ds) 100" for ds
    by (simp add: link_with_fields)
  have a1: "first_arrival (link_with [(104, ''2,extra'')]) 100 (timeout example_fan)
      = Some (104, ''2,extra'')"
    by code_simp
  have a2: "first_arrival (link_with [(104, ''x'')]) 100 (timeout example_fan) = Some (104, ''x'')"
    by code_simp
  have a3: "first_arrival (link_with [(104, ''0x'')]) 100 (timeout example_fan)
      = Some (104, ''0x'')"
    by code_simp
  have p1: "parseInt ''2'' = Some (Number 2)" and p2: "parseInt ''x'' = None"
    and p3: "parseInt ''0x'' = None"
    by code_simp+
  show ?thesis
    using reply_is_parsed_without_retry [OF s a1, of "''s''" 0]
      reply_is_parsed_without_retry [OF s a2, of "''s''" 0]
      reply_is_parsed_without_retry [OF s a3, of "''s''" 0]
    by (simp add: p1 p2 p3)
qed

text \<open>
  Claim C4 as stated fails. The first field \<open>2x\<close> is not a valid integer, so the
  specification's parser fails on it, and the call yields 2; \<open>0x10\<close> is not a base-10
  integer, and the call yields 16; \<open>9007199254740993\<close> is a valid integer, and the call
  yields 9007199254740992, the nearest double, not its base-10 value.
\<close>

theorem invalid_field_is_accepted_counterexample:
  "spec_parse ''2x'' = Inl InvalidResponse
   \<and> outcome (sendCommand example_fan (link_with [(104, ''2x'')]) ''s'' True 0 100)
       = Inr (Number 2)
   \<and> spec_parse ''0x10'' = Inl InvalidResponse
   \<and> outcome (sendCommand example_fan (link_with [(104, ''0x10'')]) ''s'' True 0 100)
       = Inr (Number 16)
   \<and> spec_parse ''9007199254740993'' = Inr (Number 9007199254740993)
   \<and> outcome (sendCommand example_fan (link_with [(104, ''9007199254740993'')]) ''s'' True 0 100)
       = Inr (Number 9007199254740992)"
  by code_simp

end
